theory Spec2Isabelle
  imports Complex_Main
begin

section \<open>Text primitives of the host language\<close>

text \<open>
  The pipeline of \<^verbatim>\<open>tts_batch.py\<close> works on Python strings. A string is modelled as a
  list of characters read as code points below 128; the character classes are the ones
  Python uses on that range. Floating-point values are modelled by exact rationals
  (no rounding, no overflow) together with the two infinities and NaN.
\<close>

definition is_space :: "char \<Rightarrow> bool" where
  \<comment> \<open>\<^verbatim>\<open>str.isspace\<close> and the regex class \<^verbatim>\<open>\s\<close>: TAB..CR, FS..US and the blank.\<close>
  "is_space c = (let n = (of_char c :: nat) in (9 \<le> n \<and> n \<le> 13) \<or> (28 \<le> n \<and> n \<le> 32))"

definition is_digit :: "char \<Rightarrow> bool" where
  "is_digit c = (let n = (of_char c :: nat) in 48 \<le> n \<and> n \<le> 57)"

definition is_word_char :: "char \<Rightarrow> bool" where
  \<comment> \<open>the regex class \<^verbatim>\<open>\w\<close>: letters, digits and the underscore.\<close>
  "is_word_char c = (let n = (of_char c :: nat) in
     (48 \<le> n \<and> n \<le> 57) \<or> (65 \<le> n \<and> n \<le> 90) \<or> (97 \<le> n \<and> n \<le> 122) \<or> n = 95)"

definition ascii_lowercase :: string where
  "ascii_lowercase = ''abcdefghijklmnopqrstuvwxyz''"

definition ascii_uppercase :: string where
  "ascii_uppercase = ''ABCDEFGHIJKLMNOPQRSTUVWXYZ''"

definition upper_char :: "char \<Rightarrow> char" where
  "upper_char c = (case map_of (zip ascii_lowercase ascii_uppercase) c of Some u \<Rightarrow> u | None \<Rightarrow> c)"

definition lower_char :: "char \<Rightarrow> char" where
  "lower_char c = (case map_of (zip ascii_uppercase ascii_lowercase) c of Some l \<Rightarrow> l | None \<Rightarrow> c)"

definition upper :: "string \<Rightarrow> string" where
  "upper s = map upper_char s"

definition lower :: "string \<Rightarrow> string" where
  "lower s = map lower_char s"

definition strip :: "string \<Rightarrow> string" where
  \<comment> \<open>\<^verbatim>\<open>s.strip()\<close>\<close>
  "strip s = rev (dropWhile is_space (rev (dropWhile is_space s)))"

definition strip_chars :: "string \<Rightarrow> string \<Rightarrow> string" where
  \<comment> \<open>\<^verbatim>\<open>s.strip(chars)\<close>\<close>
  "strip_chars chars s =
     rev (dropWhile (\<lambda>c. c \<in> set chars) (rev (dropWhile (\<lambda>c. c \<in> set chars) s)))"

definition startswith :: "string \<Rightarrow> string \<Rightarrow> bool" where
  "startswith s p = (take (length p) s = p)"

definition endswith :: "string \<Rightarrow> string \<Rightarrow> bool" where
  "endswith s p = (length p \<le> length s \<and> drop (length s - length p) s = p)"

subsection \<open>Decimal rendering: the format \<^verbatim>\<open>{idx:05d}\<close>\<close>

definition digit_char :: "nat \<Rightarrow> char" where
  "digit_char d = ''0123456789'' ! d"

definition digit_val :: "char \<Rightarrow> nat" where
  "digit_val c = of_char c - 48"

function dec :: "nat \<Rightarrow> string" where
  "dec n = (if n < 10 then [digit_char n] else dec (n div 10) @ [digit_char (n mod 10)])"
  by pat_completeness auto
termination
  by (relation "measure id") auto

declare dec.simps [simp del]

definition pad5 :: "nat \<Rightarrow> string" where
  "pad5 n = replicate (5 - length (dec n)) CHR ''0'' @ dec n"

definition of_digits :: "nat list \<Rightarrow> nat" where
  "of_digits ds = foldl (\<lambda>a d. 10 * a + d) 0 ds"

subsection \<open>The builtin \<^verbatim>\<open>float(str)\<close>\<close>

datatype pyfloat = Fin rat | PosInf | NegInf | NaN

text \<open>
  \<^verbatim>\<open>digitpart ::= digit (["_"] digit)*\<close>. \<open>digitpart_tail\<close> reads what follows the first
  digit and returns the digits read with the unread rest.
\<close>

fun digitpart_tail :: "string \<Rightarrow> nat list \<times> string" where
  "digitpart_tail [] = ([], [])"
| "digitpart_tail [c] = (if is_digit c then ([digit_val c], []) else ([], [c]))"
| "digitpart_tail (c # d # cs) =
     (if is_digit c then (case digitpart_tail (d # cs) of (ds, r) \<Rightarrow> (digit_val c # ds, r))
      else if c = CHR ''_'' \<and> is_digit d
        then (case digitpart_tail cs of (ds, r) \<Rightarrow> (digit_val d # ds, r))
      else ([], c # d # cs))"

definition digitpart :: "string \<Rightarrow> (nat list \<times> string) option" where
  "digitpart s = (case s of [] \<Rightarrow> None
     | c # cs \<Rightarrow> if is_digit c
         then (case digitpart_tail cs of (ds, r) \<Rightarrow> Some (digit_val c # ds, r))
         else None)"

definition split_sign :: "string \<Rightarrow> bool \<times> string" where
  "split_sign s = (case s of [] \<Rightarrow> (False, [])
     | c # cs \<Rightarrow> if c = CHR ''-'' then (True, cs) else if c = CHR ''+'' then (False, cs)
                else (False, c # cs))"

definition parse_exponent :: "string \<Rightarrow> int option" where
  \<comment> \<open>the rest after the mantissa: empty, or \<^verbatim>\<open>("e" | "E") ["+" | "-"] digitpart\<close>.\<close>
  "parse_exponent s = (case s of [] \<Rightarrow> Some 0
     | c # cs \<Rightarrow> if c = CHR ''e'' \<or> c = CHR ''E''
         then (case split_sign cs of (neg, r) \<Rightarrow>
           (case digitpart r of
              Some (ds, []) \<Rightarrow> Some (if neg then - int (of_digits ds) else int (of_digits ds))
            | _ \<Rightarrow> None))
         else None)"

definition scale10 :: "nat \<Rightarrow> int \<Rightarrow> rat" where
  "scale10 m e = (if 0 \<le> e then of_nat m * 10 ^ nat e else of_nat m / 10 ^ nat (- e))"

definition finish_float :: "nat list \<Rightarrow> nat list \<Rightarrow> string \<Rightarrow> rat option" where
  "finish_float ip fp r = (case parse_exponent r of None \<Rightarrow> None
     | Some e \<Rightarrow> Some (scale10 (of_digits (ip @ fp)) (e - int (length fp))))"

definition float_number :: "string \<Rightarrow> rat option" where
  \<comment> \<open>\<^verbatim>\<open>digitpart ["." [digitpart]] [exponent] | "." digitpart [exponent]\<close>\<close>
  "float_number s = (case digitpart s of
       Some (ip, r) \<Rightarrow>
         (case r of [] \<Rightarrow> finish_float ip [] r
          | c # r' \<Rightarrow> if c = CHR ''.''
              then (case digitpart r' of Some (fp, r'') \<Rightarrow> finish_float ip fp r''
                                       | None \<Rightarrow> finish_float ip [] r')
              else finish_float ip [] r)
     | None \<Rightarrow>
         (case s of [] \<Rightarrow> None
          | c # r' \<Rightarrow> if c = CHR ''.''
              then (case digitpart r' of Some (fp, r'') \<Rightarrow> finish_float [] fp r'' | None \<Rightarrow> None)
              else None))"

definition py_float :: "string \<Rightarrow> pyfloat option" where
  \<comment> \<open>\<open>None\<close> stands for the \<^verbatim>\<open>ValueError\<close> that \<^verbatim>\<open>float\<close> raises.\<close>
  "py_float s = (case split_sign (strip s) of (neg, u) \<Rightarrow>
     if lower u = ''inf'' \<or> lower u = ''infinity'' then Some (if neg then NegInf else PosInf)
     else if lower u = ''nan'' then Some NaN
     else (case float_number u of None \<Rightarrow> None
           | Some q \<Rightarrow> Some (Fin (if neg then - q else q))))"

section \<open>Configuration\<close>

definition VOICE_MAP :: "(string \<times> string) list" where
  "VOICE_MAP = [
     (''NARRATOR'', ''alloy''),
     (''BECCA'', ''nova''),
     (''CHRIS'', ''verse''),
     (''WU'', ''cedar''),
     (''BACKGROUND'', ''marin''),
     (''CADOGAN'', ''ash''),
     (''A.L.I.E.'', ''nova''),
     (''MARA'', ''shimmer''),
     (''JONAH'', ''cedar'')]"

definition MODEL :: string where
  "MODEL = ''gpt-4o-mini-tts''"

definition OUT_DIR :: string where
  "OUT_DIR = ''output_build''"

definition SAMPLE_EXT :: string where
  "SAMPLE_EXT = ''wav''"

definition DEFAULT_INTERLINE_PAUSE :: pyfloat where
  "DEFAULT_INTERLINE_PAUSE = Fin (1 / 4)"

text \<open>
  A pronunciation pattern is a sequence of literal characters and word-boundary
  assertions, which is what the one pattern of the table, \<^verbatim>\<open>\bA\.L\.I\.E\.\b\<close>, is
  made of.
\<close>

datatype atom = Lit char | WordB

definition PRONUNCIATION_ALIASES :: "(atom list \<times> string) list" where
  "PRONUNCIATION_ALIASES = [
     ([WordB, Lit CHR ''A'', Lit CHR ''.'', Lit CHR ''L'', Lit CHR ''.'',
       Lit CHR ''I'', Lit CHR ''.'', Lit CHR ''E'', Lit CHR ''.'', WordB], ''Allie'')]"

section \<open>Pronunciation normalizer\<close>

fun word_opt :: "char option \<Rightarrow> bool" where
  "word_opt None = False"
| "word_opt (Some c) = is_word_char c"

text \<open>
  \<open>match_here prev pat s\<close> matches \<open>pat\<close> at the front of \<open>s\<close>, where \<open>prev\<close> is the
  character before \<open>s\<close> in the searched text (\<open>None\<close> at its start). It returns the last
  character before the unread rest, and that rest.
\<close>

fun match_here :: "char option \<Rightarrow> atom list \<Rightarrow> string \<Rightarrow> (char option \<times> string) option" where
  "match_here prev [] s = Some (prev, s)"
| "match_here prev (Lit c # pat) [] = None"
| "match_here prev (Lit c # pat) (d # ds) = (if d = c then match_here (Some d) pat ds else None)"
| "match_here prev (WordB # pat) s =
     (if word_opt prev \<noteq> word_opt (case s of [] \<Rightarrow> None | d # _ \<Rightarrow> Some d)
      then match_here prev pat s else None)"

text \<open>
  \<^verbatim>\<open>re.sub(pattern, repl, s)\<close>: the leftmost matches, not overlapping, each replaced by
  \<open>repl\<close>; after an empty match the scan moves on by one character.
\<close>

function re_sub_from :: "char option \<Rightarrow> atom list \<Rightarrow> string \<Rightarrow> string \<Rightarrow> string" where
  "re_sub_from prev pat repl s =
     (case match_here prev pat s of
        Some (prev', rest) \<Rightarrow>
          if length rest < length s then repl @ re_sub_from prev' pat repl rest
          else repl @ (case s of [] \<Rightarrow> [] | c # cs \<Rightarrow> c # re_sub_from (Some c) pat repl cs)
      | None \<Rightarrow> (case s of [] \<Rightarrow> [] | c # cs \<Rightarrow> c # re_sub_from (Some c) pat repl cs))"
  by pat_completeness auto
termination
  by (relation "measure (\<lambda>(prev, pat, repl, s). length s)") auto

declare re_sub_from.simps [simp del]

definition re_sub :: "atom list \<Rightarrow> string \<Rightarrow> string \<Rightarrow> string" where
  "re_sub pat repl s = re_sub_from None pat repl s"

text \<open>\<^verbatim>\<open>re.sub(r"\s+", " ", s)\<close>: every maximal run of whitespace becomes one blank.\<close>

function sub_ws_runs :: "string \<Rightarrow> string" where
  "sub_ws_runs [] = []"
| "sub_ws_runs (c # cs) =
     (if is_space c then CHR '' '' # sub_ws_runs (dropWhile is_space cs) else c # sub_ws_runs cs)"
  by pat_completeness auto
termination
  by (relation "measure length") (auto simp: length_dropWhile_le less_Suc_eq_le)

fun apply_aliases :: "(atom list \<times> string) list \<Rightarrow> string \<Rightarrow> string" where
  "apply_aliases [] text = text"
| "apply_aliases ((pattern, repl) # items) text = apply_aliases items (re_sub pattern repl text)"

definition normalize_text :: "string \<Rightarrow> string" where
  "normalize_text text = apply_aliases PRONUNCIATION_ALIASES (strip (sub_ws_runs text))"

section \<open>The outside world\<close>

text \<open>
  The synthesis service and the media tool are opaque. A world says whether
  \<^verbatim>\<open>ffmpeg\<close> is on the path, which media jobs exit with status zero, which synthesis
  requests are answered, and what each file holds. Writing a file is taken to succeed.
\<close>

datatype codec = Mp3Q3 | PcmS16le24kMono

datatype content =
    Mp3Speech string string string
  | Wav24k content
  | SilentAudio codec pyfloat
  | EmptyBytes

datatype ffmpeg_job = Transcode string string | GenSilence codec pyfloat string

datatype error = FfmpegNotFound | CalledProcessError | ServiceError | KeyError

record world =
  ffmpeg_installed :: bool
  ffmpeg_succeeds :: "ffmpeg_job \<Rightarrow> bool"
  tts_succeeds :: "string \<Rightarrow> string \<Rightarrow> string \<Rightarrow> bool"
  files :: "string \<rightharpoonup> content"

definition path_join :: "string \<Rightarrow> string \<Rightarrow> string" where
  "path_join d name = d @ ''/'' @ name"

definition check_ffmpeg :: "world \<Rightarrow> error + unit" where
  "check_ffmpeg w = (if ffmpeg_installed w then Inr () else Inl FfmpegNotFound)"

definition transcode_to_wav :: "world \<Rightarrow> string \<Rightarrow> string \<Rightarrow> error + world" where
  "transcode_to_wav w src_mp3 dst_wav =
     (case check_ffmpeg w of Inl e \<Rightarrow> Inl e
      | Inr _ \<Rightarrow>
          (case files w src_mp3 of
             None \<Rightarrow> Inl CalledProcessError
           | Some c \<Rightarrow>
               if ffmpeg_succeeds w (Transcode src_mp3 dst_wav)
               then Inr (w\<lparr>files := ((files w)(dst_wav \<mapsto> Wav24k c))(src_mp3 := None)\<rparr>)
               else Inl CalledProcessError))"

definition synth_to_file :: "world \<Rightarrow> string \<Rightarrow> string \<Rightarrow> nat \<Rightarrow> error + world \<times> string" where
  "synth_to_file w text voice idx =
     (let text = normalize_text text;
          tmp_mp3 = path_join OUT_DIR (pad5 idx @ ''_'' @ voice @ ''.mp3'')
      in if \<not> tts_succeeds w MODEL voice text then Inl ServiceError
         else
           (let w1 = w\<lparr>files := (files w)(tmp_mp3 \<mapsto> Mp3Speech MODEL voice text)\<rparr>
            in if lower SAMPLE_EXT = ''mp3'' then Inr (w1, tmp_mp3)
               else
                 (let out_wav = path_join OUT_DIR (pad5 idx @ ''_'' @ voice @ ''.wav'')
                  in case transcode_to_wav w1 tmp_mp3 out_wav of
                       Inl e \<Rightarrow> Inl e
                     | Inr w2 \<Rightarrow> Inr (w2, out_wav))))"

definition make_silence :: "world \<Rightarrow> pyfloat \<Rightarrow> nat \<Rightarrow> error + world \<times> string" where
  "make_silence w seconds idx =
     (case check_ffmpeg w of Inl e \<Rightarrow> Inl e
      | Inr _ \<Rightarrow>
          (let out = path_join OUT_DIR (pad5 idx @ ''_silence.'' @ lower SAMPLE_EXT);
               job = (if lower SAMPLE_EXT = ''mp3'' then GenSilence Mp3Q3 seconds out
                      else GenSilence PcmS16le24kMono seconds out);
               made = (if lower SAMPLE_EXT = ''mp3'' then SilentAudio Mp3Q3 seconds
                       else SilentAudio PcmS16le24kMono seconds)
           in if ffmpeg_succeeds w job
              then Inr (w\<lparr>files := (files w)(out \<mapsto> made)\<rparr>, out)
              else Inr (w\<lparr>files := (files w)(out \<mapsto> EmptyBytes)\<rparr>, out)))"

section \<open>Script parser and line dispatcher\<close>

definition resolve_voice :: "string \<Rightarrow> error + string" where
  \<comment> \<open>\<^verbatim>\<open>VOICE_MAP.get(speaker.upper(), VOICE_MAP["NARRATOR"])\<close>; the default is looked up first.\<close>
  "resolve_voice speaker =
     (case map_of VOICE_MAP ''NARRATOR'' of
        None \<Rightarrow> Inl KeyError
      | Some narrator \<Rightarrow>
          Inr (case map_of VOICE_MAP (upper speaker) of Some v \<Rightarrow> v | None \<Rightarrow> narrator))"

definition pause_seconds :: "string \<Rightarrow> pyfloat" where
  \<comment> \<open>\<^verbatim>\<open>try: seconds = float(cell[7:-1])  except Exception: seconds = 0.5\<close>\<close>
  "pause_seconds cell =
     (case py_float (butlast (drop 7 cell)) of Some v \<Rightarrow> v | None \<Rightarrow> Fin (1 / 2))"

text \<open>
  The body of the loop of \<^verbatim>\<open>main\<close> for one row of cells, as \<^verbatim>\<open>csv.reader\<close> yields it.
  The state is the world, the list \<open>parts\<close> and the counter \<open>idx\<close>; an exception that
  leaves the loop is \<open>Inl\<close>. The progress line printed per dialogue row is left out.
\<close>

fun process_row ::
  "world \<Rightarrow> string list \<Rightarrow> string list \<Rightarrow> nat \<Rightarrow> error + world \<times> string list \<times> nat" where
  "process_row w [] parts idx = Inr (w, parts, idx)"
| "process_row w [c] parts idx =
     (if strip c = [] then Inr (w, parts, idx)
      else
        (let cell = strip c
         in if startswith (lower cell) ''speaker'' then Inr (w, parts, idx)
            else if startswith cell ''[PAUSE='' \<and> endswith cell '']'' then
              (case make_silence w (pause_seconds cell) idx of
                 Inl e \<Rightarrow> Inl e
               | Inr (w', out) \<Rightarrow> Inr (w', parts @ [out], idx + 1))
            else Inr (w, parts, idx)))"
| "process_row w (c0 # c1 # cells) parts idx =
     (let speaker = strip c0; text = strip_chars [CHR 0x22] (strip c1)
      in if speaker = [] \<and> text = [] then Inr (w, parts, idx)
         else
           (case resolve_voice speaker of
              Inl e \<Rightarrow> Inl e
            | Inr voice \<Rightarrow>
                (case synth_to_file w text voice idx of
                   Inl e \<Rightarrow> Inl e
                 | Inr (w1, audio_path) \<Rightarrow>
                     (case make_silence w1 DEFAULT_INTERLINE_PAUSE (idx + 1) of
                        Inl e \<Rightarrow> Inl e
                      | Inr (w2, out) \<Rightarrow> Inr (w2, (parts @ [audio_path]) @ [out], idx + 1 + 1)))))"

fun main_loop ::
  "world \<Rightarrow> string list list \<Rightarrow> string list \<Rightarrow> nat \<Rightarrow> error + world \<times> string list \<times> nat" where
  "main_loop w [] parts idx = Inr (w, parts, idx)"
| "main_loop w (row # rows) parts idx =
     (case process_row w row parts idx of
        Inl e \<Rightarrow> Inl e
      | Inr (w', parts', idx') \<Rightarrow> main_loop w' rows parts' idx')"

text \<open>A world in which the tool is installed and every external call succeeds.\<close>

definition ok_world :: world where
  "ok_world = \<lparr>ffmpeg_installed = True, ffmpeg_succeeds = (\<lambda>_. True),
               tts_succeeds = (\<lambda>_ _ _. True), files = Map.empty\<rparr>"

text \<open>The two expressions for a segment's file name, named for use in statements.\<close>

definition silence_path :: "nat \<Rightarrow> string" where
  "silence_path idx = path_join OUT_DIR (pad5 idx @ ''_silence.'' @ lower SAMPLE_EXT)"

definition speech_path :: "nat \<Rightarrow> string \<Rightarrow> string" where
  "speech_path idx voice = path_join OUT_DIR (pad5 idx @ ''_'' @ voice @ ''.wav'')"


definition name_index :: "string \<Rightarrow> nat" where
  "name_index p = of_digits (map digit_val (takeWhile is_digit (drop (length OUT_DIR + 1) p)))"

text \<open>
  \<open>numbered_from i ps\<close>: the file names of \<open>ps\<close> carry the zero-padded indices
  \<open>i, i + 1, \<dots>\<close> in this order.
\<close>

fun numbered_from :: "nat \<Rightarrow> string list \<Rightarrow> bool" where
  "numbered_from i [] = True"
| "numbered_from i (p # ps) =
     (startswith p (path_join OUT_DIR (pad5 i @ ''_'')) \<and> name_index p = i \<and> numbered_from (Suc i) ps)"

section \<open>Facts about the primitives\<close>

lemmas case_defs =
  upper_def lower_def upper_char_def lower_char_def ascii_lowercase_def ascii_uppercase_def

lemma upper_char_idem: "upper_char (upper_char c) = upper_char c"
  by (simp add: upper_char_def ascii_lowercase_def ascii_uppercase_def)

lemma upper_lower_char: "upper_char (lower_char c) = upper_char c"
  by (simp add: upper_char_def lower_char_def ascii_lowercase_def ascii_uppercase_def)

lemma upper_upper: "upper (upper s) = upper s"
  by (simp add: upper_def upper_char_idem)

lemma upper_lower: "upper (lower s) = upper s"
  by (simp add: upper_def lower_def upper_lower_char)

lemma lower_SAMPLE_EXT: "lower SAMPLE_EXT = ''wav''"
  by (simp add: SAMPLE_EXT_def case_defs)

section \<open>Voice resolver\<close>

lemma narrator_voice: "map_of VOICE_MAP ''NARRATOR'' = Some ''alloy''"
  by (simp add: VOICE_MAP_def)

text \<open>
  Claim C3. Voice resolution never fails and yields one voice for every speaker label:
  the configured voice when the upper-cased label is a key of the voice table, the
  voice of \<^verbatim>\<open>NARRATOR\<close> otherwise. Two labels with the same upper-casing resolve alike,
  so the letter case of the label does not matter.
\<close>

theorem resolve_voice_total:
  "(\<exists>v. resolve_voice speaker = Inr v) \<and>
   (\<forall>v. map_of VOICE_MAP (upper speaker) = Some v \<longrightarrow> resolve_voice speaker = Inr v) \<and>
   (map_of VOICE_MAP (upper speaker) = None \<longrightarrow>
      resolve_voice speaker = Inr ''alloy'' \<and> map_of VOICE_MAP ''NARRATOR'' = Some ''alloy'') \<and>
   (\<forall>other. upper other = upper speaker \<longrightarrow> resolve_voice other = resolve_voice speaker) \<and>
   resolve_voice (lower speaker) = resolve_voice speaker \<and>
   resolve_voice (upper speaker) = resolve_voice speaker"
  by (simp add: resolve_voice_def narrator_voice upper_upper upper_lower)

theorem resolve_voice_total_witness:
  "map_of VOICE_MAP (upper ''chris'') = Some ''verse'' \<and> resolve_voice ''chris'' = Inr ''verse'' \<and>
   map_of VOICE_MAP (upper ''Zeb'') = None \<and> resolve_voice ''Zeb'' = Inr ''alloy'' \<and>
   upper ''Chris'' = upper ''chris'' \<and> resolve_voice ''Chris'' = resolve_voice ''chris''"
proof -
  have h1: "map_of VOICE_MAP (upper ''chris'') = Some ''verse''"
    by (simp add: VOICE_MAP_def case_defs)
  have h2: "map_of VOICE_MAP (upper ''Zeb'') = None"
    by (simp add: VOICE_MAP_def case_defs)
  have h3: "upper ''Chris'' = upper ''chris''"
    by (simp add: case_defs)
  from resolve_voice_total [of "''chris''"] h1 h3
  have r1: "resolve_voice ''chris'' = Inr ''verse''"
    and r3: "resolve_voice ''Chris'' = resolve_voice ''chris''"
    by blast+
  from resolve_voice_total [of "''Zeb''"] h2
  have r2: "resolve_voice ''Zeb'' = Inr ''alloy''" by blast
  show ?thesis using h1 h2 h3 r1 r2 r3 by blast
qed

section \<open>Silence generator and segment synthesizer\<close>

lemma make_silence_eq:
  "make_silence w seconds idx =
     (if ffmpeg_installed w
      then Inr (w\<lparr>files := (files w)(silence_path idx \<mapsto>
               (if ffmpeg_succeeds w (GenSilence PcmS16le24kMono seconds (silence_path idx))
                then SilentAudio PcmS16le24kMono seconds else EmptyBytes))\<rparr>,
             silence_path idx)
      else Inl FfmpegNotFound)"
  by (simp add: make_silence_def check_ffmpeg_def silence_path_def lower_SAMPLE_EXT Let_def)

lemma synth_to_file_eq:
  "synth_to_file w text voice idx =
     (if \<not> tts_succeeds w MODEL voice (normalize_text text) then Inl ServiceError
      else if \<not> ffmpeg_installed w then Inl FfmpegNotFound
      else if \<not> ffmpeg_succeeds w
                 (Transcode (path_join OUT_DIR (pad5 idx @ ''_'' @ voice @ ''.mp3''))
                    (speech_path idx voice))
        then Inl CalledProcessError
      else Inr (w\<lparr>files := ((files w)(speech_path idx voice \<mapsto>
                   Wav24k (Mp3Speech MODEL voice (normalize_text text))))
                   (path_join OUT_DIR (pad5 idx @ ''_'' @ voice @ ''.mp3'') := None)\<rparr>,
                speech_path idx voice))"
  by (simp add: synth_to_file_def transcode_to_wav_def check_ffmpeg_def speech_path_def
      lower_SAMPLE_EXT Let_def path_join_def)




section \<open>Segment file names\<close>

lemma digit_cases: "d < 10 \<Longrightarrow> d = 0 \<or> d = 1 \<or> d = 2 \<or> d = 3 \<or> d = 4 \<or> d = 5 \<or> d = 6 \<or> d = 7 \<or> d = 8 \<or> d = (9::nat)"
  by arith

lemma digit_char_props:
  assumes "d < 10"
  shows "is_digit (digit_char d)" and "digit_val (digit_char d) = d"
  using digit_cases [OF assms] by (auto simp: digit_char_def is_digit_def digit_val_def)

lemma of_digits_snoc: "of_digits (ds @ [d]) = 10 * of_digits ds + d"
  by (simp add: of_digits_def)

lemma dec_digits: "\<forall>c \<in> set (dec n). is_digit c"
proof (induction n rule: dec.induct)
  case (1 n)
  show ?case
  proof (cases "n < 10")
    case True
    then show ?thesis by (subst dec.simps) (simp add: digit_char_props)
  next
    case False
    with 1 show ?thesis by (subst dec.simps) (auto simp: digit_char_props)
  qed
qed

lemma dec_value: "of_digits (map digit_val (dec n)) = n"
proof (induction n rule: dec.induct)
  case (1 n)
  show ?case
  proof (cases "n < 10")
    case True
    then show ?thesis by (subst dec.simps) (simp add: digit_char_props of_digits_def)
  next
    case False
    with 1 show ?thesis by (subst dec.simps) (simp add: digit_char_props of_digits_snoc)
  qed
qed

lemma of_digits_zeros: "of_digits (replicate k 0 @ ds) = of_digits ds"
proof -
  have "foldl (\<lambda>a d. 10 * a + d) 0 (replicate k (0::nat)) = 0"
    by (induction k) simp_all
  then show ?thesis by (simp add: of_digits_def)
qed

lemma digit_val_zero: "digit_val CHR ''0'' = 0"
  by (simp add: digit_val_def)

lemma pad5_digits: "\<forall>c \<in> set (pad5 n). is_digit c"
  using dec_digits [of n] by (auto simp: pad5_def is_digit_def)

lemma pad5_value: "of_digits (map digit_val (pad5 n)) = n"
  by (simp add: pad5_def digit_val_zero of_digits_zeros dec_value)

lemma pad5_length: "5 \<le> length (pad5 n)"
  by (simp add: pad5_def)

lemma name_index_path: "name_index (path_join OUT_DIR (pad5 n @ CHR ''_'' # role)) = n"
proof -
  have "takeWhile is_digit (pad5 n @ CHR ''_'' # role) = pad5 n"
    using pad5_digits [of n] by (simp add: takeWhile_append2 is_digit_def)
  then show ?thesis by (simp add: name_index_def path_join_def pad5_value)
qed

lemma name_index_silence: "name_index (silence_path n) = n"
  using name_index_path [of n "''silence.wav''"] by (simp add: silence_path_def lower_SAMPLE_EXT)

lemma name_index_speech: "name_index (speech_path n voice) = n"
  using name_index_path [of n "voice @ ''.wav''"] by (simp add: speech_path_def)

lemma speech_silence_neq: "i \<noteq> j \<Longrightarrow> speech_path i voice \<noteq> silence_path j"
  using name_index_speech [of i voice] name_index_silence [of j] by auto

lemma mp3_speech_neq: "speech_path idx voice \<noteq> path_join OUT_DIR (pad5 idx @ CHR ''_'' # voice @ ''.mp3'')"
  by (simp add: path_join_def speech_path_def)

lemma mp3_silence_neq: "i \<noteq> j \<Longrightarrow> path_join OUT_DIR (pad5 i @ ''_'' @ voice @ ''.mp3'') \<noteq> silence_path j"
  using name_index_path [of i "voice @ ''.mp3''"] name_index_silence [of j] by auto

section \<open>Line dispatcher: one row\<close>

lemma skipped_rows:
  "process_row w [] parts idx = Inr (w, parts, idx)"
  "strip c = [] \<Longrightarrow> process_row w [c] parts idx = Inr (w, parts, idx)"
  "startswith (lower (strip c)) ''speaker'' \<Longrightarrow> process_row w [c] parts idx = Inr (w, parts, idx)"
  "\<not> (startswith (strip c) ''[PAUSE='' \<and> endswith (strip c) '']'') \<Longrightarrow>
     process_row w [c] parts idx = Inr (w, parts, idx)"
  by (auto simp: Let_def)



lemma process_row_dialogue:
  "process_row w (c0 # c1 # cells) parts idx =
     (if strip c0 = [] \<and> strip_chars [CHR 0x22] (strip c1) = [] then Inr (w, parts, idx)
      else (case resolve_voice (strip c0) of
              Inl e \<Rightarrow> Inl e
            | Inr voice \<Rightarrow>
                (case synth_to_file w (strip_chars [CHR 0x22] (strip c1)) voice idx of
                   Inl e \<Rightarrow> Inl e
                 | Inr (w1, audio_path) \<Rightarrow>
                     (case make_silence w1 DEFAULT_INTERLINE_PAUSE (idx + 1) of
                        Inl e \<Rightarrow> Inl e
                      | Inr (w2, out) \<Rightarrow> Inr (w2, parts @ [audio_path, out], idx + 2)))))"
  by (simp add: Let_def split: sum.splits prod.splits)

text \<open>
  Claim C1, at the header row \<^verbatim>\<open>Speaker|Text\<close>. The reader splits the line at the
  delimiter into two cells, so the test for a header, which sits in the branch for rows
  of one cell, is never reached: the row is synthesized with the fallback voice and
  followed by a pause, and two segments are emitted where the claim says none.
\<close>

theorem header_row_is_synthesized:
  "map_sum id snd (process_row ok_world [''Speaker'', ''Text''] [] 0)
     = Inr ([''output_build/00000_alloy.wav'', ''output_build/00001_silence.wav''], 2)"
  by code_simp

text \<open>
  Claim C4. A row of two cells whose speaker and text are not both empty (the speaker
  being the first cell trimmed, the text the second cell trimmed and freed of its
  surrounding quotes) extends the segment list by exactly two paths, in this order: the
  file of the synthesized line, which holds the speech of the resolved voice for the
  normalized text, then the file of a pause of 0.25 seconds; the counter advances by
  two. The synthesis service and the transcoding are taken to succeed; their failure is
  fatal and ends the run.
\<close>

theorem dialogue_row_two_segments:
  assumes "\<not> (strip c0 = [] \<and> strip_chars [CHR 0x22] (strip c1) = [])"
    and "resolve_voice (strip c0) = Inr voice"
    and "tts_succeeds w MODEL voice (normalize_text (strip_chars [CHR 0x22] (strip c1)))"
    and "ffmpeg_installed w"
    and "ffmpeg_succeeds w (Transcode (path_join OUT_DIR (pad5 idx @ ''_'' @ voice @ ''.mp3''))
           (speech_path idx voice))"
  shows "\<exists>w'. process_row w [c0, c1] parts idx
             = Inr (w', parts @ [speech_path idx voice, silence_path (idx + 1)], idx + 2) \<and>
     files w' (speech_path idx voice)
       = Some (Wav24k (Mp3Speech MODEL voice (normalize_text (strip_chars [CHR 0x22] (strip c1))))) \<and>
     files w' (silence_path (idx + 1))
       = Some (if ffmpeg_succeeds w (GenSilence PcmS16le24kMono (Fin (1 / 4)) (silence_path (idx + 1)))
               then SilentAudio PcmS16le24kMono (Fin (1 / 4)) else EmptyBytes)"
  using assms unfolding process_row_dialogue
  by (simp add: synth_to_file_eq make_silence_eq DEFAULT_INTERLINE_PAUSE_def speech_silence_neq mp3_speech_neq)

theorem dialogue_row_two_segments_witness:
  "\<not> (strip ''NARRATOR'' = [] \<and> strip_chars [CHR 0x22] (strip ''Hello world'') = []) \<and>
   resolve_voice (strip ''NARRATOR'') = Inr ''alloy'' \<and>
   normalize_text (strip_chars [CHR 0x22] (strip ''Hello world'')) = ''Hello world'' \<and>
   (\<exists>w'. process_row ok_world [''NARRATOR'', ''Hello world''] [] 0
            = Inr (w', [] @ [speech_path 0 ''alloy'', silence_path (0 + 1)], 0 + 2) \<and>
         files w' (speech_path 0 ''alloy'')
           = Some (Wav24k (Mp3Speech MODEL ''alloy''
                (normalize_text (strip_chars [CHR 0x22] (strip ''Hello world''))))) \<and>
         files w' (silence_path (0 + 1))
           = Some (if ffmpeg_succeeds ok_world
                        (GenSilence PcmS16le24kMono (Fin (1 / 4)) (silence_path (0 + 1)))
                   then SilentAudio PcmS16le24kMono (Fin (1 / 4)) else EmptyBytes))"
proof -
  have h1: "\<not> (strip ''NARRATOR'' = [] \<and> strip_chars [CHR 0x22] (strip ''Hello world'') = [])"
    by code_simp
  have h2: "resolve_voice (strip ''NARRATOR'') = Inr ''alloy''"
    by code_simp
  have h3: "tts_succeeds ok_world MODEL ''alloy''
              (normalize_text (strip_chars [CHR 0x22] (strip ''Hello world'')))"
    by (simp add: ok_world_def)
  have h4: "ffmpeg_installed ok_world"
    by (simp add: ok_world_def)
  have h5: "ffmpeg_succeeds ok_world
              (Transcode (path_join OUT_DIR (pad5 0 @ ''_'' @ ''alloy'' @ ''.mp3''))
                 (speech_path 0 ''alloy''))"
    by (simp add: ok_world_def)
  have n: "normalize_text (strip_chars [CHR 0x22] (strip ''Hello world'')) = ''Hello world''"
    by code_simp
  note c = dialogue_row_two_segments [OF h1 h2 h3 h4 h5, of "[]"]
  show ?thesis using h1 h2 n c by blast
qed










text \<open>
  Claim C10. For a row of two or more cells the outcome depends only on the first cell
  trimmed (the speaker) and on the second cell trimmed and freed of its surrounding
  quotes (the text): further cells play no part. The row is skipped exactly when
  speaker and text are both empty; otherwise it is a dialogue row: the voice is
  resolved from the speaker, the text is synthesized and a pause follows.
\<close>

theorem dialogue_row_fields:
  "(strip c0 = strip d0 \<and> strip_chars [CHR 0x22] (strip c1) = strip_chars [CHR 0x22] (strip d1) \<longrightarrow>
      process_row w (c0 # c1 # cells) parts idx = process_row w (d0 # d1 # cells') parts idx) \<and>
   (process_row w (c0 # c1 # cells) parts idx = Inr (w, parts, idx) \<longleftrightarrow>
      strip c0 = [] \<and> strip_chars [CHR 0x22] (strip c1) = []) \<and>
   (\<not> (strip c0 = [] \<and> strip_chars [CHR 0x22] (strip c1) = []) \<longrightarrow>
      process_row w (c0 # c1 # cells) parts idx =
        (case resolve_voice (strip c0) of
           Inl e \<Rightarrow> Inl e
         | Inr voice \<Rightarrow>
             (case synth_to_file w (strip_chars [CHR 0x22] (strip c1)) voice idx of
                Inl e \<Rightarrow> Inl e
              | Inr (w1, audio_path) \<Rightarrow>
                  (case make_silence w1 DEFAULT_INTERLINE_PAUSE (idx + 1) of
                     Inl e \<Rightarrow> Inl e
                   | Inr (w2, out) \<Rightarrow> Inr (w2, parts @ [audio_path, out], idx + 2)))))"
  unfolding process_row_dialogue
  by (auto split: sum.splits)

theorem dialogue_row_fields_witness:
  "strip '' chris '' = strip ''chris'' \<and>
   strip_chars [CHR 0x22] (strip [CHR 0x22, CHR ''H'', CHR ''i'', CHR 0x22, CHR '' ''])
     = strip_chars [CHR 0x22] (strip ''Hi'') \<and>
   process_row ok_world
       ['' chris '', [CHR 0x22, CHR ''H'', CHR ''i'', CHR 0x22, CHR '' ''], ''extra''] [] 0
     = process_row ok_world [''chris'', ''Hi''] [] 0 \<and>
   strip ''  '' = [] \<and> strip_chars [CHR 0x22] (strip [CHR 0x22, CHR 0x22]) = [] \<and>
   process_row ok_world [''  '', [CHR 0x22, CHR 0x22], ''x''] [''p''] 4 = Inr (ok_world, [''p''], 4) \<and>
   \<not> (strip ''ZEB'' = [] \<and> strip_chars [CHR 0x22] (strip ''Test'') = []) \<and>
   process_row ok_world [''ZEB'', ''Test'', ''more''] [] 0 \<noteq> Inr (ok_world, [], 0)"
proof -
  have h1: "strip '' chris '' = strip ''chris''" by code_simp
  have h2: "strip_chars [CHR 0x22] (strip [CHR 0x22, CHR ''H'', CHR ''i'', CHR 0x22, CHR '' ''])
     = strip_chars [CHR 0x22] (strip ''Hi'')" by code_simp
  have h3: "strip ''  '' = []" by code_simp
  have h4: "strip_chars [CHR 0x22] (strip [CHR 0x22, CHR 0x22]) = []" by code_simp
  have h5: "\<not> (strip ''ZEB'' = [] \<and> strip_chars [CHR 0x22] (strip ''Test'') = [])" by code_simp
  from dialogue_row_fields [of "'' chris ''" "''chris''" _ "''Hi''" ok_world "[''extra'']" "[]" 0 "[]"] h1 h2
  have c1: "process_row ok_world
       ['' chris '', [CHR 0x22, CHR ''H'', CHR ''i'', CHR 0x22, CHR '' ''], ''extra''] [] 0
     = process_row ok_world [''chris'', ''Hi''] [] 0"
    by blast
  from dialogue_row_fields [of "''  ''" _ "[CHR 0x22, CHR 0x22]" _ ok_world "[''x'']" "[''p'']" 4] h3 h4
  have c2: "process_row ok_world [''  '', [CHR 0x22, CHR 0x22], ''x''] [''p''] 4 = Inr (ok_world, [''p''], 4)"
    by blast
  from dialogue_row_fields [of "''ZEB''" _ "''Test''" _ ok_world "[''more'']" "[]" 0] h5
  have c3: "process_row ok_world [''ZEB'', ''Test'', ''more''] [] 0 \<noteq> Inr (ok_world, [], 0)"
    by blast
  show ?thesis using h1 h2 h3 h4 h5 c1 c2 c3 by blast
qed

section \<open>Line dispatcher: the loop\<close>

lemma numbered_from_append:
  "numbered_from i (xs @ ys) \<longleftrightarrow> numbered_from i xs \<and> numbered_from (i + length xs) ys"
  by (induction xs arbitrary: i) auto

lemma numbered_from_indices: "numbered_from i ps \<Longrightarrow> map name_index ps = [i ..< i + length ps]"
proof (induction ps arbitrary: i)
  case Nil
  show ?case by simp
next
  case (Cons p ps)
  from Cons.prems have a: "name_index p = i" and b: "numbered_from (Suc i) ps"
    by simp_all
  have c: "map name_index ps = [Suc i ..< Suc i + length ps]"
    by (rule Cons.IH [OF b])
  have "[i ..< i + length (p # ps)] = i # [Suc i ..< Suc i + length ps]"
    by (simp add: upt_conv_Cons del: upt_Suc)
  with a c show ?case by (simp del: upt_Suc)
qed

lemma numbered_from_distinct: "numbered_from i ps \<Longrightarrow> distinct ps"
proof -
  assume "numbered_from i ps"
  then have "distinct (map name_index ps)" by (simp add: numbered_from_indices)
  then show ?thesis by (simp add: distinct_map)
qed

lemma numbered_silence: "numbered_from i [silence_path i]"
  by (simp add: name_index_silence) (simp add: startswith_def silence_path_def path_join_def)

lemma numbered_speech: "numbered_from i [speech_path i voice]"
  by (simp add: name_index_speech) (simp add: startswith_def speech_path_def path_join_def)

lemma make_silence_Inr: "make_silence w seconds idx = Inr (w', out) \<Longrightarrow> out = silence_path idx"
  by (simp add: make_silence_eq split: if_splits)

lemma synth_to_file_Inr: "synth_to_file w text voice idx = Inr (w', p) \<Longrightarrow> p = speech_path idx voice"
  by (simp add: synth_to_file_eq split: if_splits)

lemma process_row_single:
  "process_row w [c] parts idx =
     (if strip c = [] \<or> startswith (lower (strip c)) ''speaker'' \<or>
         \<not> (startswith (strip c) ''[PAUSE='' \<and> endswith (strip c) '']'')
      then Inr (w, parts, idx)
      else (case make_silence w (pause_seconds (strip c)) idx of
              Inl e \<Rightarrow> Inl e
            | Inr (w', out) \<Rightarrow> Inr (w', parts @ [out], idx + 1)))"
  by (simp add: Let_def)

lemma extends_none:
  "\<exists>new. parts = parts @ new \<and> idx = idx + length new \<and> numbered_from idx new"
proof -
  have "parts = parts @ [] \<and> idx = idx + length ([]::string list) \<and> numbered_from idx []"
    by simp
  then show ?thesis by blast
qed

lemma extends_silence:
  "\<exists>new. parts @ [silence_path idx] = parts @ new \<and> idx + 1 = idx + length new \<and>
         numbered_from idx new"
proof -
  have "parts @ [silence_path idx] = parts @ [silence_path idx] \<and>
        idx + 1 = idx + length [silence_path idx] \<and> numbered_from idx [silence_path idx]"
    using numbered_silence [of idx] by simp
  then show ?thesis by blast
qed

lemma extends_dialogue:
  "\<exists>new. parts @ [speech_path idx voice, silence_path (idx + 1)] = parts @ new \<and>
         idx + 2 = idx + length new \<and> numbered_from idx new"
proof -
  have "numbered_from idx ([speech_path idx voice] @ [silence_path (idx + 1)])"
    unfolding numbered_from_append using numbered_speech [of idx voice] numbered_silence [of "idx + 1"]
    by simp
  then have "parts @ [speech_path idx voice, silence_path (idx + 1)]
               = parts @ [speech_path idx voice, silence_path (idx + 1)] \<and>
        idx + 2 = idx + length [speech_path idx voice, silence_path (idx + 1)] \<and>
        numbered_from idx [speech_path idx voice, silence_path (idx + 1)]"
    by simp
  then show ?thesis by blast
qed

lemma process_row_single_extends:
  assumes "process_row w [c] parts idx = Inr (w', parts', idx')"
  shows "\<exists>new. parts' = parts @ new \<and> idx' = idx + length new \<and> numbered_from idx new"
proof (cases "strip c = [] \<or> startswith (lower (strip c)) ''speaker'' \<or>
         \<not> (startswith (strip c) ''[PAUSE='' \<and> endswith (strip c) '']'')")
  case True
  with assms have "parts' = parts" "idx' = idx"
    unfolding process_row_single by simp_all
  then show ?thesis using extends_none by simp
next
  case False
  with assms have m: "(case make_silence w (pause_seconds (strip c)) idx of
              Inl e \<Rightarrow> Inl e
            | Inr (w', out) \<Rightarrow> Inr (w', parts @ [out], idx + 1)) = Inr (w', parts', idx')"
    unfolding process_row_single by simp
  then obtain out where ms: "make_silence w (pause_seconds (strip c)) idx = Inr (w', out)"
    and res: "parts' = parts @ [out]" "idx' = idx + 1"
    by (cases "make_silence w (pause_seconds (strip c)) idx") auto
  from make_silence_Inr [OF ms] res show ?thesis using extends_silence by simp
qed

lemma process_row_dialogue_extends:
  assumes "process_row w (c0 # c1 # cells) parts idx = Inr (w', parts', idx')"
  shows "\<exists>new. parts' = parts @ new \<and> idx' = idx + length new \<and> numbered_from idx new"
proof (cases "strip c0 = [] \<and> strip_chars [CHR 0x22] (strip c1) = []")
  case True
  with assms have "parts' = parts" "idx' = idx"
    unfolding process_row_dialogue by simp_all
  then show ?thesis using extends_none by simp
next
  case False
  with assms have m: "(case resolve_voice (strip c0) of
              Inl e \<Rightarrow> Inl e
            | Inr voice \<Rightarrow>
                (case synth_to_file w (strip_chars [CHR 0x22] (strip c1)) voice idx of
                   Inl e \<Rightarrow> Inl e
                 | Inr (w1, audio_path) \<Rightarrow>
                     (case make_silence w1 DEFAULT_INTERLINE_PAUSE (idx + 1) of
                        Inl e \<Rightarrow> Inl e
                      | Inr (w2, out) \<Rightarrow> Inr (w2, parts @ [audio_path, out], idx + 2))))
           = Inr (w', parts', idx')"
    unfolding process_row_dialogue by simp
  then obtain voice where rv: "resolve_voice (strip c0) = Inr voice"
    by (cases "resolve_voice (strip c0)") auto
  with m obtain w1 audio_path where
    sf: "synth_to_file w (strip_chars [CHR 0x22] (strip c1)) voice idx = Inr (w1, audio_path)"
    by (cases "synth_to_file w (strip_chars [CHR 0x22] (strip c1)) voice idx") auto
  with m rv obtain out where
    ms: "make_silence w1 DEFAULT_INTERLINE_PAUSE (idx + 1) = Inr (w', out)"
    and res: "parts' = parts @ [audio_path, out]" "idx' = idx + 2"
    by (cases "make_silence w1 DEFAULT_INTERLINE_PAUSE (idx + 1)") auto
  from synth_to_file_Inr [OF sf] make_silence_Inr [OF ms] res
  show ?thesis using extends_dialogue by simp
qed

lemma process_row_extends:
  assumes "process_row w row parts idx = Inr (w', parts', idx')"
  shows "\<exists>new. parts' = parts @ new \<and> idx' = idx + length new \<and> numbered_from idx new"
proof (cases row)
  case Nil
  with assms have "parts' = parts" "idx' = idx" by simp_all
  then show ?thesis using extends_none by simp
next
  case (Cons c0 rest)
  show ?thesis
  proof (cases rest)
    case Nil
    with Cons assms show ?thesis using process_row_single_extends by blast
  next
    case (Cons c1 cells)
    with \<open>row = c0 # rest\<close> assms show ?thesis using process_row_dialogue_extends by blast
  qed
qed

lemma main_loop_append:
  "main_loop w (rows1 @ rows2) parts idx =
     (case main_loop w rows1 parts idx of
        Inl e \<Rightarrow> Inl e
      | Inr (w1, parts1, idx1) \<Rightarrow> main_loop w1 rows2 parts1 idx1)"
  by (induction rows1 arbitrary: w parts idx) (auto split: sum.splits)

lemma main_loop_extends:
  "main_loop w rows parts idx = Inr (w', parts', idx') \<Longrightarrow>
     \<exists>new. parts' = parts @ new \<and> idx' = idx + length new \<and> numbered_from idx new"
proof (induction rows arbitrary: w parts idx)
  case Nil
  then have "parts' = parts @ [] \<and> idx' = idx + length ([]::string list) \<and> numbered_from idx []"
    by simp
  then show ?case by blast
next
  case (Cons row rows)
  from Cons.prems obtain w1 parts1 idx1 where
    step: "process_row w row parts idx = Inr (w1, parts1, idx1)"
    and rest: "main_loop w1 rows parts1 idx1 = Inr (w', parts', idx')"
    by (auto split: sum.splits)
  from process_row_extends [OF step] obtain new1 where
    n1: "parts1 = parts @ new1" "idx1 = idx + length new1" "numbered_from idx new1"
    by blast
  from Cons.IH [OF rest] obtain new2 where
    n2: "parts' = parts1 @ new2" "idx' = idx1 + length new2" "numbered_from idx1 new2"
    by blast
  have "parts' = parts @ (new1 @ new2) \<and> idx' = idx + length (new1 @ new2) \<and>
      numbered_from idx (new1 @ new2)"
    using n1 n2 by (simp add: numbered_from_append)
  then show ?case by blast
qed

text \<open>
  Claim C7. In a run of the loop that ends normally, the rows processed first contribute
  the earlier part of the segment list: the list after \<open>rows1 @ rows2\<close> is the list after
  \<open>rows1\<close> extended by the segments of \<open>rows2\<close>, and nothing already in the list moves.
  The counter grows by one per segment appended, dialogue and silence alike, and the
  k-th new file name starts with the zero-padded index \<open>idx + k\<close>; so the indices are
  strictly increasing along the list and the names are pairwise distinct.
\<close>

theorem segments_in_row_order:
  assumes "main_loop w (rows1 @ rows2) parts idx = Inr (w', parts', idx')"
  shows "\<exists>w1 new1 new2.
     main_loop w rows1 parts idx = Inr (w1, parts @ new1, idx + length new1) \<and>
     main_loop w1 rows2 (parts @ new1) (idx + length new1) = Inr (w', parts', idx') \<and>
     parts' = parts @ new1 @ new2 \<and>
     idx' = idx + length (new1 @ new2) \<and>
     numbered_from idx (new1 @ new2) \<and>
     map name_index (new1 @ new2) = [idx ..< idx'] \<and>
     distinct (new1 @ new2)"
proof -
  from assms obtain w1 parts1 idx1 where
    a: "main_loop w rows1 parts idx = Inr (w1, parts1, idx1)"
    and b: "main_loop w1 rows2 parts1 idx1 = Inr (w', parts', idx')"
    unfolding main_loop_append by (auto split: sum.splits)
  from main_loop_extends [OF a] obtain new1 where
    n1: "parts1 = parts @ new1" "idx1 = idx + length new1" "numbered_from idx new1"
    by blast
  from main_loop_extends [OF b] obtain new2 where
    n2: "parts' = parts1 @ new2" "idx' = idx1 + length new2" "numbered_from idx1 new2"
    by blast
  have num: "numbered_from idx (new1 @ new2)"
    using n1 n2 by (simp add: numbered_from_append)
  have "main_loop w rows1 parts idx = Inr (w1, parts @ new1, idx + length new1) \<and>
     main_loop w1 rows2 (parts @ new1) (idx + length new1) = Inr (w', parts', idx') \<and>
     parts' = parts @ new1 @ new2 \<and>
     idx' = idx + length (new1 @ new2) \<and>
     numbered_from idx (new1 @ new2) \<and>
     map name_index (new1 @ new2) = [idx ..< idx'] \<and>
     distinct (new1 @ new2)"
    using a b n1 n2 num numbered_from_indices [OF num] numbered_from_distinct [OF num]
    by (simp add: add.assoc)
  then show ?thesis by blast
qed

theorem segments_in_row_order_witness:
  "\<exists>w'. main_loop ok_world ([[''[PAUSE=1]'']] @ [[''CHRIS'', ''Hi'']]) [] 0
          = Inr (w', [''output_build/00000_silence.wav'', ''output_build/00001_verse.wav'',
                      ''output_build/00002_silence.wav''], 3) \<and>
        (\<exists>w1 new1 new2.
           main_loop ok_world [[''[PAUSE=1]'']] [] 0 = Inr (w1, [] @ new1, 0 + length new1) \<and>
           [''output_build/00000_silence.wav'', ''output_build/00001_verse.wav'',
            ''output_build/00002_silence.wav''] = [] @ new1 @ new2 \<and>
           map name_index (new1 @ new2) = [0 ..< 3] \<and>
           distinct (new1 @ new2))"
proof -
  have "map_sum id snd (main_loop ok_world ([[''[PAUSE=1]'']] @ [[''CHRIS'', ''Hi'']]) [] 0)
          = Inr ([''output_build/00000_silence.wav'', ''output_build/00001_verse.wav'',
                  ''output_build/00002_silence.wav''], 3)"
    by code_simp
  then obtain w' where h:
    "main_loop ok_world ([[''[PAUSE=1]'']] @ [[''CHRIS'', ''Hi'']]) [] 0
       = Inr (w', [''output_build/00000_silence.wav'', ''output_build/00001_verse.wav'',
                   ''output_build/00002_silence.wav''], 3)"
    by (cases "main_loop ok_world ([[''[PAUSE=1]'']] @ [[''CHRIS'', ''Hi'']]) [] 0") auto
  from segments_in_row_order [OF h] h show ?thesis by blast
qed

end
